theory Spec2Isabelle
  imports Main "HOL-Library.Sublist" "HOL-Library.AList"
begin

section \<open>JavaScript values and objects\<close>

text \<open>
  The values that travel through the client of \<^verbatim>\<open>moviedb.js\<close>: request parameters,
  the transport options handed to \<^verbatim>\<open>fetch\<close> and decoded JSON responses. Numbers are the
  integral ones (ids, page numbers); strings are byte strings; arrays and functions do not
  occur. An object is the list of its own enumerable properties in the order in which
  \<^verbatim>\<open>Object.keys\<close> enumerates them.
\<close>

datatype jv =
    Undefined
  | Null
  | Bool bool
  | Num int
  | Str string
  | Obj "(string \<times> jv) list"

type_synonym obj = "(string \<times> jv) list"

definition keys :: "obj \<Rightarrow> string list" where
  "keys ob = map fst ob"

text \<open>Property read \<^verbatim>\<open>ob[k]\<close>: a missing property reads as \<^verbatim>\<open>undefined\<close>.\<close>

definition get :: "obj \<Rightarrow> string \<Rightarrow> jv" where
  "get ob k = (case map_of ob k of None \<Rightarrow> Undefined | Some v \<Rightarrow> v)"

text \<open>Property read on an arbitrary value; primitives have no own data properties.\<close>

fun getField :: "jv \<Rightarrow> string \<Rightarrow> jv" where
  "getField (Obj ob) k = get ob k"
| "getField v k = Undefined"

text \<open>JavaScript truthiness (\<^verbatim>\<open>!v\<close> is its negation).\<close>

fun truthy :: "jv \<Rightarrow> bool" where
  "truthy Undefined = False"
| "truthy Null = False"
| "truthy (Bool b) = b"
| "truthy (Num n) = (n \<noteq> 0)"
| "truthy (Str s) = (s \<noteq> [])"
| "truthy (Obj ob) = True"

text \<open>lodash \<^verbatim>\<open>isObject\<close>.\<close>

fun isObject :: "jv \<Rightarrow> bool" where
  "isObject (Obj ob) = True"
| "isObject v = False"

subsection \<open>Property order\<close>

definition isDigit :: "char \<Rightarrow> bool" where
  "isDigit c = (let n = (of_char c :: nat) in 48 \<le> n \<and> n \<le> 57)"

definition numVal :: "string \<Rightarrow> int" where
  "numVal s = foldl (\<lambda>a c. 10 * a + ((of_char c :: int) - 48)) 0 s"

text \<open>
  A property name is an array index when it is the canonical decimal form of an integer
  below \<open>2^32 - 1\<close>. Such names are enumerated first, in ascending numeric order; all
  other names follow in the order of their creation.
\<close>

definition isArrayIndex :: "string \<Rightarrow> bool" where
  "isArrayIndex k =
     (k \<noteq> [] \<and> list_all isDigit k \<and> (length k = 1 \<or> hd k \<noteq> CHR ''0'')
      \<and> numVal k < 4294967295)"

fun insertIndex :: "string \<Rightarrow> jv \<Rightarrow> obj \<Rightarrow> obj" where
  "insertIndex k v [] = [(k, v)]"
| "insertIndex k v ((k', v') # ps) =
     (if isArrayIndex k' \<and> numVal k' < numVal k then (k', v') # insertIndex k v ps
      else (k, v) # (k', v') # ps)"

text \<open>Property write \<^verbatim>\<open>ob[k] = v\<close>: an existing property keeps its place.\<close>

definition setProp :: "obj \<Rightarrow> string \<Rightarrow> jv \<Rightarrow> obj" where
  "setProp ob k v =
     (if k \<in> set (keys ob) then AList.update k v ob
      else if isArrayIndex k then insertIndex k v ob
      else ob @ [(k, v)])"

text \<open>Object spread \<^verbatim>\<open>{...base, ...src}\<close>: the properties of \<open>src\<close> are written in turn.\<close>

definition spread :: "obj \<Rightarrow> obj \<Rightarrow> obj" where
  "spread base src = fold (\<lambda>k ob. setProp ob k (get src k)) (keys src) base"

section \<open>Strings\<close>

fun showNat :: "nat \<Rightarrow> string" where
  "showNat n =
     (if n < 10 then [''0123456789'' ! n]
      else showNat (n div 10) @ [''0123456789'' ! (n mod 10)])"

declare showNat.simps [simp del]

definition showInt :: "int \<Rightarrow> string" where
  "showInt i = (if i < 0 then CHR ''-'' # showNat (nat (- i)) else showNat (nat i))"

text \<open>\<^verbatim>\<open>String(v)\<close>, the conversion applied wherever a value is used as text.\<close>

fun ToString :: "jv \<Rightarrow> string" where
  "ToString Undefined = ''undefined''"
| "ToString Null = ''null''"
| "ToString (Bool b) = (if b then ''true'' else ''false'')"
| "ToString (Num n) = showInt n"
| "ToString (Str s) = s"
| "ToString (Obj ob) = ''[object Object]''"

text \<open>
  \<^verbatim>\<open>s.indexOf(p)\<close> as a split of \<open>s\<close> around the first occurrence of \<open>p\<close>:
  the text before it and the text after it.
\<close>

fun splitFirst :: "string \<Rightarrow> string \<Rightarrow> (string \<times> string) option" where
  "splitFirst p [] = (if p = [] then Some ([], []) else None)"
| "splitFirst p (c # s) =
     (if prefix p (c # s) then Some ([], drop (length p) (c # s))
      else map_option (\<lambda>(a, b). (c # a, b)) (splitFirst p s))"

text \<open>
  The replacement text of \<^verbatim>\<open>String.prototype.replace\<close> for a string pattern
  (no capture groups): \<^verbatim>\<open>$$\<close> is a dollar sign, \<^verbatim>\<open>$&\<close> the matched text,
  \<^verbatim>\<open>$`\<close> the text before the match and \<^verbatim>\<open>$'\<close> the text after it; any other
  dollar sign stands for itself.
\<close>

fun getSubstitution :: "string \<Rightarrow> string \<Rightarrow> string \<Rightarrow> string \<Rightarrow> string" where
  "getSubstitution m b a [] = []"
| "getSubstitution m b a [c] = [c]"
| "getSubstitution m b a (c # d # r) =
     (if c = CHR ''$'' then
        (if d = CHR ''$'' then CHR ''$'' # getSubstitution m b a r
         else if d = CHR ''&'' then m @ getSubstitution m b a r
         else if d = CHR 0x60 then b @ getSubstitution m b a r
         else if d = CHR 0x27 then a @ getSubstitution m b a r
         else c # getSubstitution m b a (d # r))
      else c # getSubstitution m b a (d # r))"

text \<open>\<^verbatim>\<open>s.replace(p, v)\<close> with a string pattern: only the first occurrence is replaced.\<close>

definition replace :: "string \<Rightarrow> string \<Rightarrow> jv \<Rightarrow> string" where
  "replace s p v =
     (case splitFirst p s of
        None \<Rightarrow> s
      | Some (b, a) \<Rightarrow> b @ getSubstitution p b a (ToString v) @ a)"

text \<open>\<^verbatim>\<open>s.includes(p)\<close>.\<close>

definition includes_str :: "string \<Rightarrow> string \<Rightarrow> bool" where
  "includes_str s p = sublist p s"

definition isLower :: "char \<Rightarrow> bool" where
  "isLower c = (let n = (of_char c :: nat) in 97 \<le> n \<and> n \<le> 122)"

definition isLetter :: "char \<Rightarrow> bool" where
  "isLetter c = (let n = (of_char c :: nat) in (97 \<le> n \<and> n \<le> 122) \<or> (65 \<le> n \<and> n \<le> 90))"

text \<open>
  \<^verbatim>\<open>s.match(/:[a-z]*/g) || []\<close>, with the character class as a parameter
  (\<open>isLower\<close> for the pattern as written, \<open>isLetter\<close> under the \<^verbatim>\<open>i\<close> flag):
  every colon starts a match that takes the longest run of class characters after it, and
  the scan goes on behind the match.
\<close>

function matchAll :: "(char \<Rightarrow> bool) \<Rightarrow> string \<Rightarrow> string list" where
  "matchAll P [] = []"
| "matchAll P (c # s) =
     (if c = CHR '':'' then (c # takeWhile P s) # matchAll P (dropWhile P s)
      else matchAll P s)"
  by pat_completeness auto
termination
  by (relation "measure (\<lambda>(P, s). length s)")
     (auto simp: less_Suc_eq_le length_dropWhile_le)

section \<open>The client\<close>

text \<open>
  The fields of \<^verbatim>\<open>class MovieDb\<close> that the request pipeline reads and writes. The
  session id is absent until \<^verbatim>\<open>retrieveSession\<close> stores one; the token is whatever
  the last token request decoded to, \<open>Undefined\<close> before the first one. The throttling
  queue only delays the start of a request and is not part of this state.
\<close>

record client =
  apiKey :: string
  baseUrl :: string
  token :: jv
  sessionId :: "string option"

text \<open>\<^verbatim>\<open>this.sessionId\<close> used as a condition: set, and not the empty string.\<close>

definition sessionLive :: "client \<Rightarrow> bool" where
  "sessionLive c = (case sessionId c of None \<Rightarrow> False | Some s \<Rightarrow> s \<noteq> [])"

datatype HttpMethod = Get | Post | Delete

text \<open>
  Modelled from the spec: the values of the enumeration \<^verbatim>\<open>HttpMethod\<close> of
  \<^verbatim>\<open>./types\<close>, which is not among the sources; the spec names the verbs GET, POST
  and DELETE.
\<close>

fun methodValue :: "HttpMethod \<Rightarrow> jv" where
  "methodValue Get = Str ''GET''"
| "methodValue Post = Str ''POST''"
| "methodValue Delete = Str ''DELETE''"

subsection \<open>getEndpoint\<close>

text \<open>
  \<^verbatim>\<open>Object.keys(params).reduce((compiled, key) => compiled.replace(`:${key}`, params[key]), endpoint)\<close>
\<close>

definition getEndpoint :: "string \<Rightarrow> obj \<Rightarrow> string" where
  "getEndpoint endpoint params =
     foldl (\<lambda>compiled key. replace compiled (CHR '':'' # key) (get params key))
       endpoint (keys params)"

subsection \<open>normalizeParams\<close>

text \<open>
  An object is returned as it is (an omitted argument defaults to the empty object).
  Any other value is bound to the placeholder of the template when the pattern
  \<^verbatim>\<open>/:[a-z]*/g\<close> has exactly one match there, the name being the match without its colon.
\<close>

definition normalizeParams :: "string \<Rightarrow> jv \<Rightarrow> obj" where
  "normalizeParams endpoint params =
     (case params of
        Undefined \<Rightarrow> []
      | Obj ob \<Rightarrow> ob
      | _ \<Rightarrow>
         (let matches = matchAll isLower endpoint in
          if length matches = 1
          then foldl (\<lambda>ob m. setProp ob (drop 1 m) params) [] matches
          else []))"

subsection \<open>getParams\<close>

text \<open>
  lodash \<^verbatim>\<open>merge(object, source)\<close>: the properties of \<open>source\<close> are written into
  \<open>object\<close> in turn. An object-valued property is merged recursively into the property
  already there (into a fresh object when that is not an object); an \<^verbatim>\<open>undefined\<close>
  one is skipped when the property exists; any other value overwrites.
\<close>

function (sequential) merge :: "obj \<Rightarrow> obj \<Rightarrow> obj" where
  "merge object [] = object"
| "merge object ((key, Obj so) # source) =
     merge (setProp object key
              (Obj (merge (case get object key of Obj oo \<Rightarrow> oo | _ \<Rightarrow> []) so))) source"
| "merge object ((key, Undefined) # source) =
     merge (if key \<in> set (keys object) then object else setProp object key Undefined) source"
| "merge object ((key, v) # source) = merge (setProp object key v) source"
  by pat_completeness auto
termination
  by (relation "measure (\<lambda>(object, source). size_list (size_prod (\<lambda>k. 0) size) source)") auto

text \<open>
  The first argument of the merge,
  \<^verbatim>\<open>{ api_key: this.apiKey, ...(this.sessionId && { session_id: this.sessionId }) }\<close>.
\<close>

definition defaults :: "client \<Rightarrow> obj" where
  "defaults c =
     spread [(''api_key'', Str (apiKey c))]
       (case sessionId c of
          None \<Rightarrow> []
        | Some s \<Rightarrow> if s \<noteq> [] then [(''session_id'', Str s)] else [])"

definition getParams :: "client \<Rightarrow> string \<Rightarrow> obj \<Rightarrow> obj" where
  "getParams c endpoint params =
     (let compiledParams = merge (defaults c) params
      in if includes_str endpoint '':id'' \<and> \<not> truthy (get compiledParams ''id'')
            \<and> sessionLive c
         then setProp compiledParams ''id'' (Str ''{account_id}'')
         else compiledParams)"

subsection \<open>Serialisation\<close>

text \<open>lodash \<^verbatim>\<open>omit(object, paths)\<close> for plain property names.\<close>

definition omit :: "obj \<Rightarrow> string list \<Rightarrow> obj" where
  "omit ob props = filter (\<lambda>(k, v). k \<notin> set props) ob"

definition hexByte :: "string \<Rightarrow> char \<Rightarrow> string" where
  "hexByte digits c =
     (let n = (of_char c :: nat) in [digits ! (n div 16), digits ! (n mod 16)])"

text \<open>
  The \<^verbatim>\<open>application/x-www-form-urlencoded\<close> byte serialiser behind
  \<^verbatim>\<open>URLSearchParams.prototype.toString\<close>.
\<close>

definition urlencodeChar :: "char \<Rightarrow> string" where
  "urlencodeChar c =
     (if isLetter c \<or> isDigit c \<or> c \<in> set ''*-._'' then [c]
      else if c = CHR '' '' then ''+''
      else CHR ''%'' # hexByte ''0123456789ABCDEF'' c)"

definition urlencode :: "string \<Rightarrow> string" where
  "urlencode s = concat (map urlencodeChar s)"

fun joinWith :: "string \<Rightarrow> string list \<Rightarrow> string" where
  "joinWith sep [] = []"
| "joinWith sep [x] = x"
| "joinWith sep (x # y # xs) = x @ sep @ joinWith sep (y # xs)"

text \<open>\<^verbatim>\<open>new URLSearchParams(query).toString()\<close>\<close>

definition URLSearchParams_toString :: "obj \<Rightarrow> string" where
  "URLSearchParams_toString query =
     joinWith ''&''
       (map (\<lambda>k. urlencode k @ ''='' @ urlencode (ToString (get query k))) (keys query))"

definition quoteChar :: "char \<Rightarrow> string" where
  "quoteChar c =
     (if c = CHR 0x22 then [CHR 0x5C, CHR 0x22]
      else if c = CHR 0x5C then [CHR 0x5C, CHR 0x5C]
      else if c = CHR 0x08 then [CHR 0x5C, CHR ''b'']
      else if c = CHR 0x09 then [CHR 0x5C, CHR ''t'']
      else if c = CHR 0x0A then [CHR 0x5C, CHR ''n'']
      else if c = CHR 0x0C then [CHR 0x5C, CHR ''f'']
      else if c = CHR 0x0D then [CHR 0x5C, CHR ''r'']
      else if (of_char c :: nat) < 32 then [CHR 0x5C, CHR ''u'', CHR ''0'', CHR ''0''] @ hexByte ''0123456789abcdef'' c
      else [c])"

definition quoteJSON :: "string \<Rightarrow> string" where
  "quoteJSON s = CHR 0x22 # concat (map quoteChar s) @ [CHR 0x22]"

text \<open>
  \<^verbatim>\<open>JSON.stringify(v)\<close>; \<open>None\<close> is the result \<^verbatim>\<open>undefined\<close>, and a property with
  that result is left out of its object.
\<close>

fun JSON_stringify :: "jv \<Rightarrow> string option" and members :: "obj \<Rightarrow> string list" where
  "JSON_stringify Undefined = None"
| "JSON_stringify Null = Some ''null''"
| "JSON_stringify (Bool b) = Some (if b then ''true'' else ''false'')"
| "JSON_stringify (Num n) = Some (showInt n)"
| "JSON_stringify (Str s) = Some (quoteJSON s)"
| "JSON_stringify (Obj ob) = Some (''{'' @ joinWith '','' (members ob) @ ''}'')"
| "members [] = []"
| "members ((k, v) # ob) =
     (case JSON_stringify v of
        None \<Rightarrow> members ob
      | Some s \<Rightarrow> (quoteJSON k @ '':'' @ s) # members ob)"

definition stringifyValue :: "jv \<Rightarrow> jv" where
  "stringifyValue v = (case JSON_stringify v of None \<Rightarrow> Undefined | Some s \<Rightarrow> Str s)"

subsection \<open>makeRequest\<close>

text \<open>The two arguments of \<^verbatim>\<open>fetch(url, options)\<close>.\<close>

record request =
  url :: string
  options :: obj

text \<open>The names removed from the query: \<^verbatim>\<open>[...(endpoint.match(/:[a-z]*/gi) ?? [])].map((prop) => prop.slice(1))\<close>\<close>

definition omittedProps :: "string \<Rightarrow> string list" where
  "omittedProps endpoint = map (drop 1) (matchAll isLetter endpoint)"

definition fullQuery :: "client \<Rightarrow> string \<Rightarrow> jv \<Rightarrow> obj" where
  "fullQuery c endpoint params = getParams c endpoint (normalizeParams endpoint params)"

definition query :: "client \<Rightarrow> string \<Rightarrow> jv \<Rightarrow> obj" where
  "query c endpoint params = omit (fullQuery c endpoint params) (omittedProps endpoint)"

text \<open>
  The body of \<^verbatim>\<open>makeRequest\<close> up to the call of the queue: the URL and the options
  object that the queued unit of work passes to \<^verbatim>\<open>fetch\<close>.
\<close>

definition fetchArgs :: "client \<Rightarrow> HttpMethod \<Rightarrow> string \<Rightarrow> jv \<Rightarrow> obj \<Rightarrow> request" where
  "fetchArgs c method endpoint params fetchOptions =
     (let url0 = baseUrl c @ getEndpoint endpoint (fullQuery c endpoint params);
          url1 = (if method = Get
                  then url0 @ ''?'' @ URLSearchParams_toString (query c endpoint params)
                  else url0);
          options0 =
            spread (spread [(''method'', methodValue method)]
                      (if method \<noteq> Get
                       then [(''body'', stringifyValue (Obj (query c endpoint params)))]
                       else []))
                   fetchOptions
      in \<lparr>url = url1, options = options0\<rparr>)"

subsection \<open>The network and requestToken\<close>

text \<open>
  \<^verbatim>\<open>this.queue.add(async () => await (await fetch(url, options)).json())\<close>: the request
  is sent and the promise settles with the decoded body, or is rejected. The server is a
  parameter: it answers the \<open>n\<close>-th request of a run. The network state is the log of
  the requests sent so far. The model runs one call after the other, each awaited before
  the next starts.
\<close>

datatype failure = Rejected

type_synonym server = "nat \<Rightarrow> request \<Rightarrow> failure + jv"

record network =
  sent :: "request list"

definition makeRequest ::
  "server \<Rightarrow> client \<Rightarrow> network \<Rightarrow> HttpMethod \<Rightarrow> string \<Rightarrow> jv \<Rightarrow> obj
     \<Rightarrow> (failure + jv) \<times> network" where
  "makeRequest srv c w method endpoint params fetchOptions =
     (let r = fetchArgs c method endpoint params fetchOptions
      in (srv (length (sent w)) r, w\<lparr>sent := sent w @ [r]\<rparr>))"

text \<open>
  \<^verbatim>\<open>requestToken\<close>. The clock \<^verbatim>\<open>Date.now()\<close> is the argument \<open>now\<close>;
  \<open>getTime v\<close> stands for \<^verbatim>\<open>new Date(v).getTime()\<close>, with \<open>None\<close> for the
  result \<^verbatim>\<open>NaN\<close> of an invalid date, with which every comparison is false.
\<close>

definition requestToken ::
  "(jv \<Rightarrow> int option) \<Rightarrow> server \<Rightarrow> int \<Rightarrow> client \<Rightarrow> network
     \<Rightarrow> (failure + jv) \<times> client \<times> network" where
  "requestToken getTime srv now c w =
     (if \<not> truthy (token c)
         \<or> (case getTime (getField (token c) ''expires_at'') of
               None \<Rightarrow> False
             | Some e \<Rightarrow> now > e)
      then (case makeRequest srv c w Get ''authentication/token/new'' Undefined [] of
              (Inl e, w') \<Rightarrow> (Inl e, c, w')
            | (Inr t, w') \<Rightarrow> (Inr t, c\<lparr>token := t\<rparr>, w'))
      else (Inr (token c), c, w))"

section \<open>Notions of the specification\<close>

text \<open>
  The keys consumed by path substitution, in the words of the specification: the keys
  whose value replaces a placeholder, that is, whose step of \<open>getEndpoint\<close> finds
  \<^verbatim>\<open>:key\<close> in the path compiled so far.
\<close>

fun consumed :: "string \<Rightarrow> obj \<Rightarrow> string list \<Rightarrow> string list" where
  "consumed compiled params [] = []"
| "consumed compiled params (key # ks) =
     (if includes_str compiled (CHR '':'' # key) then [key] else [])
     @ consumed (replace compiled (CHR '':'' # key) (get params key)) params ks"

definition consumedKeys :: "string \<Rightarrow> obj \<Rightarrow> string list" where
  "consumedKeys endpoint params = consumed endpoint params (keys params)"

text \<open>The keys that the residual computation takes out of the mapping.\<close>

definition removedKeys :: "string \<Rightarrow> obj \<Rightarrow> string list" where
  "removedKeys endpoint params =
     filter (\<lambda>k. k \<notin> set (keys (omit params (omittedProps endpoint)))) (keys params)"

section \<open>Placeholder substitution and the residual parameters\<close>

text \<open>
  Claim C1. For the template \<^verbatim>\<open>tv/:id/season/:season_number\<close> and the parameters
  \<^verbatim>\<open>{id: 42, season_number: 3}\<close> the compiled path is \<^verbatim>\<open>tv/42/season/3\<close>, as the
  claim says; but the residual parameters, which go into the query string, still hold
  \<^verbatim>\<open>season_number\<close>: the pattern \<^verbatim>\<open>/:[a-z]*/gi\<close> stops at the underscore, so the
  name taken out is \<^verbatim>\<open>season\<close>. Only \<^verbatim>\<open>id\<close> is removed.
\<close>

theorem seasonInfo_keeps_season_number:
  "getEndpoint ''tv/:id/season/:season_number''
     (fullQuery \<lparr>apiKey = ''k'', baseUrl = ''https://api.themoviedb.org/3/'',
                 token = Undefined, sessionId = None\<rparr>
        ''tv/:id/season/:season_number'' (Obj [(''id'', Num 42), (''season_number'', Num 3)]))
     = ''tv/42/season/3''
   \<and> query \<lparr>apiKey = ''k'', baseUrl = ''https://api.themoviedb.org/3/'',
             token = Undefined, sessionId = None\<rparr>
        ''tv/:id/season/:season_number'' (Obj [(''id'', Num 42), (''season_number'', Num 3)])
     = [(''api_key'', Str ''k''), (''season_number'', Num 3)]
   \<and> url (fetchArgs \<lparr>apiKey = ''k'', baseUrl = ''https://api.themoviedb.org/3/'',
                      token = Undefined, sessionId = None\<rparr>
             Get ''tv/:id/season/:season_number''
             (Obj [(''id'', Num 42), (''season_number'', Num 3)]) [])
     = ''https://api.themoviedb.org/3/tv/42/season/3?api_key=k&season_number=3''"
  by code_simp

text \<open>
  Claim C2. Path substitution and the residual computation disagree on the same request:
  substitution consumes \<^verbatim>\<open>id\<close> and \<^verbatim>\<open>season_number\<close>, the residual computation
  removes \<^verbatim>\<open>id\<close> alone, because the names it looks for are \<^verbatim>\<open>id\<close> and
  \<^verbatim>\<open>season\<close>.
\<close>

theorem consumed_and_removed_keys_differ:
  "omittedProps ''tv/:id/season/:season_number'' = [''id'', ''season'']
   \<and> fullQuery \<lparr>apiKey = ''k'', baseUrl = ''https://api.themoviedb.org/3/'',
                 token = Undefined, sessionId = None\<rparr>
        ''tv/:id/season/:season_number'' (Obj [(''id'', Num 42), (''season_number'', Num 3)])
       = [(''api_key'', Str ''k''), (''id'', Num 42), (''season_number'', Num 3)]
   \<and> consumedKeys ''tv/:id/season/:season_number''
        [(''api_key'', Str ''k''), (''id'', Num 42), (''season_number'', Num 3)]
       = [''id'', ''season_number'']
   \<and> removedKeys ''tv/:id/season/:season_number''
        [(''api_key'', Str ''k''), (''id'', Num 42), (''season_number'', Num 3)]
       = [''id'']
   \<and> set (consumedKeys ''tv/:id/season/:season_number''
            [(''api_key'', Str ''k''), (''id'', Num 42), (''season_number'', Num 3)])
       \<noteq> set (removedKeys ''tv/:id/season/:season_number''
                [(''api_key'', Str ''k''), (''id'', Num 42), (''season_number'', Num 3)])"
  by code_simp

section \<open>Normalisation of a scalar argument\<close>

lemma count_dropWhile_colon:
  "\<not> P (CHR '':'') \<Longrightarrow> count_list (dropWhile P s) (CHR '':'') = count_list s (CHR '':'')"
  by (induction s) auto

text \<open>Every colon of the template starts exactly one match.\<close>

lemma length_matchAll:
  "\<not> P (CHR '':'') \<Longrightarrow> length (matchAll P s) = count_list s (CHR '':'')"
  by (induction P s rule: matchAll.induct) (auto simp: count_dropWhile_colon)

lemma matchAll_no_colon:
  "CHR '':'' \<notin> set s \<Longrightarrow> matchAll P s = []"
  by (induction s) auto

lemma matchAll_skip:
  "CHR '':'' \<notin> set pre \<Longrightarrow> matchAll P (pre @ s) = matchAll P s"
  by (induction pre) auto

lemma takeWhile_run:
  "list_all P name \<Longrightarrow> post = [] \<or> \<not> P (hd post) \<Longrightarrow> takeWhile P (name @ post) = name"
  by (cases post) (auto simp: takeWhile_append2 list_all_iff)

lemma dropWhile_run:
  "list_all P name \<Longrightarrow> post = [] \<or> \<not> P (hd post) \<Longrightarrow> dropWhile P (name @ post) = post"
  by (cases post) (auto simp: dropWhile_append2 list_all_iff)

lemma matchAll_single:
  assumes "CHR '':'' \<notin> set pre" "CHR '':'' \<notin> set post" "list_all P name"
    "post = [] \<or> \<not> P (hd post)"
  shows "matchAll P (pre @ CHR '':'' # name @ post) = [CHR '':'' # name]"
  using assms by (simp add: matchAll_skip takeWhile_run dropWhile_run matchAll_no_colon)

lemma setProp_empty: "setProp [] k v = [(k, v)]"
  by (simp add: setProp_def keys_def)

lemma isLower_colon: "\<not> isLower (CHR '':'')"
  by (simp add: isLower_def)

text \<open>
  Claim C3, as amended. Normalisation counts the placeholder occurrences of the template,
  not the distinct placeholders. For a scalar (number or string) argument: when the
  template has exactly one colon and a non-empty run \<open>name\<close> of lowercase letters follows
  it, the result is the single-entry mapping of \<open>name\<close> to the scalar; when the template
  has no colon or more than one colon, the result is the empty mapping. An argument that
  is already a mapping is returned unchanged.
\<close>

theorem normalizeParams_scalar:
  assumes "v = Num n \<or> v = Str s"
  shows "(CHR '':'' \<notin> set pre \<and> CHR '':'' \<notin> set post \<and> name \<noteq> [] \<and> list_all isLower name
           \<and> (post = [] \<or> \<not> isLower (hd post))
          \<longrightarrow> normalizeParams (pre @ CHR '':'' # name @ post) v = [(name, v)])
       \<and> (count_list endpoint (CHR '':'') \<noteq> 1 \<longrightarrow> normalizeParams endpoint v = [])
       \<and> normalizeParams endpoint (Obj ob) = ob"
proof (intro conjI impI)
  assume h: "CHR '':'' \<notin> set pre \<and> CHR '':'' \<notin> set post \<and> name \<noteq> [] \<and> list_all isLower name
           \<and> (post = [] \<or> \<not> isLower (hd post))"
  then have "matchAll isLower (pre @ CHR '':'' # name @ post) = [CHR '':'' # name]"
    by (simp add: matchAll_single)
  with assms show "normalizeParams (pre @ CHR '':'' # name @ post) v = [(name, v)]"
    by (auto simp: normalizeParams_def setProp_empty)
next
  assume "count_list endpoint (CHR '':'') \<noteq> 1"
  then have "length (matchAll isLower endpoint) \<noteq> 1"
    by (simp add: length_matchAll isLower_colon)
  with assms show "normalizeParams endpoint v = []"
    by (auto simp: normalizeParams_def)
next
  show "normalizeParams endpoint (Obj ob) = ob"
    by (simp add: normalizeParams_def)
qed

text \<open>
  The theorem at \<^verbatim>\<open>movie/:id\<close> (one placeholder) and at
  \<^verbatim>\<open>tv/:id/season/:season_number\<close> (two), with the scalar 550.
\<close>

theorem normalizeParams_scalar_witness:
  "normalizeParams ''movie/:id'' (Num 550) = [(''id'', Num 550)]
   \<and> normalizeParams ''tv/:id/season/:season_number'' (Num 550) = []
   \<and> normalizeParams ''tv/:id/season/:season_number'' (Obj [(''id'', Num 42)]) = [(''id'', Num 42)]"
  using normalizeParams_scalar [of "Num 550" 550 "''''" "''movie/''" "''''" "''id''"
      "''tv/:id/season/:season_number''" "[(''id'', Num 42)]"]
  by (simp add: isLower_def)

text \<open>
  Claim C3 as stated fails where one placeholder occurs twice: the template
  \<^verbatim>\<open>list/:id/item/:id\<close> has exactly one distinct placeholder, \<^verbatim>\<open>:id\<close>, and the
  scalar 550 is normalised to the empty mapping, not to \<^verbatim>\<open>{id: 550}\<close>.
\<close>

theorem normalizeParams_repeated_placeholder:
  "remdups (matchAll isLower ''list/:id/item/:id'') = ['':id'']
   \<and> normalizeParams ''list/:id/item/:id'' (Num 550) = []"
  by code_simp

section \<open>Properties of objects, spread and merge\<close>

lemma keys_simps: "keys [] = []" "keys ((k, v) # ob) = k # keys ob" "keys (ob @ ob') = keys ob @ keys ob'"
  by (simp_all add: keys_def)

lemma map_of_notin: "k \<notin> set (keys ob) \<Longrightarrow> map_of ob k = None"
  by (simp add: keys_def map_of_eq_None_iff)

lemma map_of_insertIndex:
  "k \<notin> set (keys ob) \<Longrightarrow> map_of (insertIndex k v ob) = (map_of ob)(k \<mapsto> v)"
  by (induction ob) (auto simp: fun_eq_iff keys_simps)

lemma map_of_setProp: "map_of (setProp ob k v) = (map_of ob)(k \<mapsto> v)"
proof (cases "k \<in> set (keys ob)")
  case True
  then show ?thesis by (simp add: setProp_def update_conv')
next
  case False
  then show ?thesis
    by (auto simp: setProp_def map_of_insertIndex map_of_notin fun_eq_iff map_add_def
        split: option.splits)
qed

lemma keys_insertIndex: "set (keys (insertIndex k v ob)) = insert k (set (keys ob))"
  by (induction ob) (auto simp: keys_simps split: if_splits)

lemma keys_update: "set (keys (AList.update k v ob)) = insert k (set (keys ob))"
  by (simp add: keys_def dom_update)

lemma keys_setProp: "set (keys (setProp ob k v)) = insert k (set (keys ob))"
  by (simp add: setProp_def keys_insertIndex keys_update keys_simps)

lemma get_setProp: "get (setProp ob k v) k' = (if k' = k then v else get ob k')"
  by (simp add: get_def map_of_setProp)

lemma get_notin: "k \<notin> set (keys ob) \<Longrightarrow> get ob k = Undefined"
  by (simp add: get_def map_of_notin)

lemma get_in: "distinct (keys ob) \<Longrightarrow> (k, v) \<in> set ob \<Longrightarrow> get ob k = v"
  by (simp add: get_def keys_def)

lemma keys_merge: "set (keys (merge object source)) = set (keys object) \<union> set (keys source)"
  by (induction object source rule: merge.induct) (auto simp: keys_setProp keys_simps)

lemma get_merge_other:
  "k \<notin> set (keys source) \<Longrightarrow> get (merge object source) k = get object k"
  by (induction object source rule: merge.induct) (auto simp: get_setProp keys_simps)

lemma in_keys: "(k, v) \<in> set ob \<Longrightarrow> k \<in> set (keys ob)"
  by (force simp: keys_def)

lemma get_merge_scalar:
  "distinct (keys source) \<Longrightarrow> (k, v) \<in> set source \<Longrightarrow> \<not> isObject v \<Longrightarrow> v \<noteq> Undefined
   \<Longrightarrow> get (merge object source) k = v"
  by (induction object source rule: merge.induct)
     (auto simp: keys_simps get_merge_other get_setProp dest: in_keys)

lemma fold_setProp_map_of:
  "map_of (fold (\<lambda>k ob. setProp ob k (f k)) ks base) =
     (\<lambda>x. if x \<in> set ks then Some (f x) else map_of base x)"
  by (induction ks arbitrary: base) (auto simp: map_of_setProp fun_eq_iff)

lemma get_spread:
  "get (spread base src) k = (if k \<in> set (keys src) then get src k else get base k)"
  by (simp add: spread_def get_def fold_setProp_map_of)

lemma fold_setProp_keys:
  "set (keys (fold (\<lambda>k ob. setProp ob k (f k)) ks base)) = set (keys base) \<union> set ks"
  by (induction ks arbitrary: base) (auto simp: keys_setProp)

lemma keys_spread: "set (keys (spread base src)) = set (keys base) \<union> set (keys src)"
  by (simp add: spread_def fold_setProp_keys)

lemma spread_empty: "spread base [] = base"
  by (simp add: spread_def keys_def)

section \<open>Unresolved placeholders\<close>

text \<open>What \<open>splitFirst\<close> finds is an occurrence, and it finds one whenever there is one.\<close>

lemma splitFirst_Some: "splitFirst p s = Some (b, a) \<Longrightarrow> s = b @ p @ a"
proof (induction s arbitrary: b)
  case Nil
  then show ?case by (auto split: if_splits)
next
  case (Cons c s)
  then show ?case
    by (auto split: if_splits simp: prefix_def)
qed

lemma splitFirst_None: "splitFirst p s = None \<Longrightarrow> \<not> sublist p s"
proof (induction s)
  case Nil
  then show ?case by (auto split: if_splits)
next
  case (Cons c s)
  then show ?case
    by (auto split: if_splits simp: sublist_Cons_right)
qed

lemma splitFirst_sublist: "sublist p s \<Longrightarrow> \<exists>b a. splitFirst p s = Some (b, a)"
  using splitFirst_None by (cases "splitFirst p s") auto

lemma colon_free_prefix:
  "CHR '':'' \<notin> set n \<Longrightarrow> u @ CHR '':'' # r = n @ y \<Longrightarrow> \<exists>w. u = n @ w"
  by (auto simp: append_eq_append_conv2 Cons_eq_append_conv)

lemma colon_free_suffix:
  "CHR '':'' \<notin> set k \<Longrightarrow> k @ a = u @ CHR '':'' # r \<Longrightarrow> \<exists>w. a = w @ CHR '':'' # r"
  by (auto simp: append_eq_append_conv2 append_eq_Cons_conv)

lemma incomparable_heads:
  "\<not> prefix k name \<Longrightarrow> \<not> prefix name k \<Longrightarrow> k @ a \<noteq> name @ ys"
  by (auto simp: append_eq_append_conv2 prefix_def)

lemma colon_overlap:
  assumes eq: "b @ (CHR '':'' # k) @ a = xs @ (CHR '':'' # name) @ ys"
    and k: "CHR '':'' \<notin> set k" and n: "CHR '':'' \<notin> set name"
    and nk: "\<not> prefix k name" and kn: "\<not> prefix name k"
  shows "sublist (CHR '':'' # name) b \<or> sublist (CHR '':'' # name) a"
proof -
  from eq obtain us where
    "(b = xs @ us \<and> us @ (CHR '':'' # k) @ a = (CHR '':'' # name) @ ys)
     \<or> (b @ us = xs \<and> (CHR '':'' # k) @ a = us @ (CHR '':'' # name) @ ys)"
    unfolding append_eq_append_conv2 by blast
  then show ?thesis
  proof
    assume A: "b = xs @ us \<and> us @ (CHR '':'' # k) @ a = (CHR '':'' # name) @ ys"
    show ?thesis
    proof (cases us)
      case Nil
      with A have "k @ a = name @ ys" by simp
      with incomparable_heads [OF nk kn] show ?thesis by blast
    next
      case (Cons c us')
      with A have "us' @ CHR '':'' # (k @ a) = name @ ys" and c: "c = CHR '':''" by simp_all
      from colon_free_prefix [OF n this(1)] obtain w where "us' = name @ w" ..
      with A Cons c have "b = xs @ (CHR '':'' # name) @ w" by simp
      then have "sublist (CHR '':'' # name) b" unfolding sublist_def by blast
      then show ?thesis ..
    qed
  next
    assume B: "b @ us = xs \<and> (CHR '':'' # k) @ a = us @ (CHR '':'' # name) @ ys"
    show ?thesis
    proof (cases us)
      case Nil
      with B have "k @ a = name @ ys" by simp
      with incomparable_heads [OF nk kn] show ?thesis by blast
    next
      case (Cons c us')
      with B have "k @ a = us' @ CHR '':'' # (name @ ys)" by simp
      from colon_free_suffix [OF k this] obtain w where "a = w @ CHR '':'' # (name @ ys)" ..
      then have "a = w @ (CHR '':'' # name) @ ys" by simp
      then have "sublist (CHR '':'' # name) a" unfolding sublist_def by blast
      then show ?thesis ..
    qed
  qed
qed

lemma sublist_replace:
  assumes "sublist (CHR '':'' # name) s" "CHR '':'' \<notin> set k" "CHR '':'' \<notin> set name"
    "\<not> prefix k name" "\<not> prefix name k"
  shows "sublist (CHR '':'' # name) (replace s (CHR '':'' # k) v)"
proof (cases "splitFirst (CHR '':'' # k) s")
  case None
  with assms(1) show ?thesis by (simp add: replace_def)
next
  case (Some ba)
  obtain b a where ba: "ba = (b, a)" by (cases ba)
  with Some have s: "s = b @ (CHR '':'' # k) @ a" using splitFirst_Some by blast
  from assms(1) obtain xs ys where "s = xs @ (CHR '':'' # name) @ ys"
    unfolding sublist_def by blast
  with s have "b @ (CHR '':'' # k) @ a = xs @ (CHR '':'' # name) @ ys" by simp
  from colon_overlap [OF this assms(2,3,4,5)]
  have "sublist (CHR '':'' # name) b \<or> sublist (CHR '':'' # name) a" .
  then have "sublist (CHR '':'' # name)
      (b @ getSubstitution (CHR '':'' # k) b a (ToString v) @ a)"
    by (auto simp: sublist_append)
  with Some ba show ?thesis by (simp add: replace_def)
qed

lemma sublist_foldl_replace:
  assumes "CHR '':'' \<notin> set name"
    and "\<forall>k \<in> set ks. CHR '':'' \<notin> set k \<and> \<not> prefix k name \<and> \<not> prefix name k"
    and "sublist (CHR '':'' # name) s"
  shows "sublist (CHR '':'' # name)
           (foldl (\<lambda>compiled key. replace compiled (CHR '':'' # key) (f key)) s ks)"
  using assms(2,3)
proof (induction ks arbitrary: s)
  case Nil
  then show ?case by simp
next
  case (Cons k ks)
  then have "sublist (CHR '':'' # name) (replace s (CHR '':'' # k) (f k))"
    using assms(1) by (simp add: sublist_replace)
  with Cons show ?case by simp
qed

text \<open>
  Claim C7, as amended. \<open>getEndpoint\<close> has no error result: it returns a path for every
  template and mapping. A placeholder \<^verbatim>\<open>:name\<close> of the template is still in the compiled
  path when no supplied key touches it: when no key contains a colon, no key is a prefix
  of \<open>name\<close> (the key \<open>name\<close> itself and the empty key included) and \<open>name\<close> is a prefix
  of no key.
\<close>

theorem unresolved_placeholder_kept:
  assumes "includes_str endpoint (CHR '':'' # name)"
    and "CHR '':'' \<notin> set name"
    and "\<forall>k \<in> set (keys params). CHR '':'' \<notin> set k \<and> \<not> prefix k name \<and> \<not> prefix name k"
  shows "includes_str (getEndpoint endpoint params) (CHR '':'' # name)"
  using assms unfolding includes_str_def getEndpoint_def
  by (intro sublist_foldl_replace) auto

text \<open>
  The theorem at the season template with \<^verbatim>\<open>api_key\<close> and \<^verbatim>\<open>id\<close> supplied and
  \<^verbatim>\<open>season_number\<close> missing.
\<close>

theorem unresolved_placeholder_kept_witness:
  "getEndpoint ''tv/:id/season/:season_number'' [(''api_key'', Str ''k''), (''id'', Num 42)]
     = ''tv/42/season/:season_number''
   \<and> includes_str
        (getEndpoint ''tv/:id/season/:season_number'' [(''api_key'', Str ''k''), (''id'', Num 42)])
        '':season_number''"
proof -
  have h1: "includes_str ''tv/:id/season/:season_number'' (CHR '':'' # ''season_number'')"
    by code_simp
  have h2: "CHR '':'' \<notin> set ''season_number''"
    by simp
  have h3: "\<forall>k \<in> set (keys [(''api_key'', Str ''k''), (''id'', Num 42)]).
              CHR '':'' \<notin> set k \<and> \<not> prefix k ''season_number'' \<and> \<not> prefix ''season_number'' k"
    by (simp add: keys_def)
  have "getEndpoint ''tv/:id/season/:season_number'' [(''api_key'', Str ''k''), (''id'', Num 42)]
     = ''tv/42/season/:season_number''"
    by code_simp
  with unresolved_placeholder_kept [OF h1 h2 h3] show ?thesis
    by simp
qed

text \<open>
  Claim C7 as stated fails when a supplied key is a proper prefix of the placeholder's
  name: with \<^verbatim>\<open>{id: 1, season: 2}\<close> no parameter \<^verbatim>\<open>season_number\<close> is supplied, yet
  \<^verbatim>\<open>:season_number\<close> is not left verbatim, because \<^verbatim>\<open>:season\<close> is replaced inside it.
\<close>

theorem prefix_key_rewrites_placeholder:
  "''season_number'' \<notin> set (keys [(''id'', Num 1), (''season'', Num 2)])
   \<and> getEndpoint ''tv/:id/season/:season_number'' [(''id'', Num 1), (''season'', Num 2)]
       = ''tv/1/season/2_number''
   \<and> \<not> includes_str
         (getEndpoint ''tv/:id/season/:season_number'' [(''id'', Num 1), (''season'', Num 2)])
         '':season_number''"
  by code_simp

section \<open>The implicit current user\<close>

lemma keys_defaults: "set (keys (defaults c)) \<subseteq> {''api_key'', ''session_id''}"
  by (auto simp: defaults_def keys_spread keys_simps split: option.splits if_splits)

lemma id_not_default: "''id'' \<notin> set (keys (defaults c))"
  using keys_defaults [of c] by auto

lemma getParams_unfold:
  "getParams c endpoint params =
     (if includes_str endpoint '':id'' \<and> \<not> truthy (get (merge (defaults c) params) ''id'')
           \<and> sessionLive c
      then setProp (merge (defaults c) params) ''id'' (Str ''{account_id}'')
      else merge (defaults c) params)"
  by (simp add: getParams_def Let_def)

lemma defaults_no_session: "\<not> sessionLive c \<Longrightarrow> defaults c = [(''api_key'', Str (apiKey c))]"
  by (auto simp: defaults_def sessionLive_def spread_empty split: option.splits)

text \<open>Without an \<^verbatim>\<open>id\<close> among the parameters the sentinel becomes the last property.\<close>

lemma getParams_no_id:
  assumes "includes_str endpoint '':id''" "sessionLive c" "''id'' \<notin> set (keys params)"
  shows "getParams c endpoint params
         = merge (defaults c) params @ [(''id'', Str ''{account_id}'')]"
proof -
  have nk: "''id'' \<notin> set (keys (merge (defaults c) params))"
    using assms(3) id_not_default by (simp add: keys_merge)
  then have "\<not> truthy (get (merge (defaults c) params) ''id'')"
    by (simp add: get_notin)
  moreover have "\<not> isArrayIndex ''id''"
    by (simp add: isArrayIndex_def isDigit_def)
  ultimately show ?thesis
    using assms nk by (simp add: getParams_unfold setProp_def)
qed

lemma getParams_truthy_id:
  assumes "distinct (keys params)" "(''id'', v) \<in> set params" "truthy v" "\<not> isObject v"
  shows "getParams c endpoint params = merge (defaults c) params"
    and "get (getParams c endpoint params) ''id'' = v"
proof -
  have "v \<noteq> Undefined" using assms(3) by auto
  then have g: "get (merge (defaults c) params) ''id'' = v"
    using assms by (intro get_merge_scalar) auto
  with assms(3) show "getParams c endpoint params = merge (defaults c) params"
    by (simp add: getParams_unfold)
  with g show "get (getParams c endpoint params) ''id'' = v" by simp
qed

lemma getSubstitution_account: "getSubstitution m b a ''{account_id}'' = ''{account_id}''"
  by simp

lemma replace_found:
  "sublist p s \<Longrightarrow> \<exists>b a. replace s p v = b @ getSubstitution p b a (ToString v) @ a"
proof -
  assume "sublist p s"
  then obtain b a where "splitFirst p s = Some (b, a)"
    using splitFirst_sublist by blast
  then have "replace s p v = b @ getSubstitution p b a (ToString v) @ a"
    by (simp add: replace_def)
  then show ?thesis by blast
qed

lemma account_path:
  assumes "includes_str endpoint '':id''" "sessionLive c"
    and "\<forall>k \<in> set (keys params). CHR '':'' \<notin> set k \<and> \<not> prefix k ''id'' \<and> \<not> prefix ''id'' k"
  shows "includes_str (getEndpoint endpoint (getParams c endpoint params)) ''{account_id}''"
proof -
  let ?m = "merge (defaults c) params"
  let ?fq = "?m @ [(''id'', Str ''{account_id}'')]"
  let ?F = "\<lambda>compiled key. replace compiled (CHR '':'' # key) (get ?fq key)"
  have noid: "''id'' \<notin> set (keys params)"
    using assms(3) by auto
  have fq: "getParams c endpoint params = ?fq"
    by (rule getParams_no_id [OF assms(1) assms(2) noid])
  have "\<forall>k \<in> set (keys ?m). CHR '':'' \<notin> set k \<and> \<not> prefix k ''id'' \<and> \<not> prefix ''id'' k"
    using assms(3) keys_defaults [of c] by (auto simp: keys_merge)
  then have "sublist (CHR '':'' # ''id'') (foldl ?F endpoint (keys ?m))"
    using assms(1) by (intro sublist_foldl_replace) (auto simp: includes_str_def)
  then obtain b a where
    "replace (foldl ?F endpoint (keys ?m)) '':id'' (Str ''{account_id}'')
       = b @ ''{account_id}'' @ a"
    using replace_found [of "'':id''" "foldl ?F endpoint (keys ?m)" "Str ''{account_id}''"]
    by (auto simp only: getSubstitution_account ToString.simps)
  moreover have "map_of ?m ''id'' = None"
    using noid id_not_default [of c] by (intro map_of_notin) (simp add: keys_merge)
  then have "get ?fq ''id'' = Str ''{account_id}''"
    by (simp add: get_def map_add_def)
  ultimately have "getEndpoint endpoint ?fq = b @ ''{account_id}'' @ a"
    by (simp add: getEndpoint_def keys_simps)
  then show ?thesis
    unfolding fq includes_str_def sublist_def by blast
qed

text \<open>
  Claim C5, as amended. On a template that contains \<^verbatim>\<open>:id\<close>, with a session id set
  (and not empty) and no \<^verbatim>\<open>id\<close> key among the parameters, \<^verbatim>\<open>{account_id}\<close> is
  injected as the \<^verbatim>\<open>id\<close> of the merged mapping; the compiled path then contains
  \<^verbatim>\<open>{account_id}\<close> provided no parameter key contains a colon, is a prefix of
  \<^verbatim>\<open>id\<close> or has \<^verbatim>\<open>id\<close> as a prefix. The test is made on the mapping merged from
  the defaults and the parameters: without a session the result is the merge of the API
  key with the parameters, and with an explicit \<^verbatim>\<open>id\<close> whose value is a truthy scalar
  the result is the plain merge, which keeps that value.
\<close>

theorem implicit_current_user:
  "(includes_str endpoint '':id'' \<and> sessionLive c \<and> ''id'' \<notin> set (keys params)
      \<longrightarrow> get (getParams c endpoint params) ''id'' = Str ''{account_id}'')
   \<and> (includes_str endpoint '':id'' \<and> sessionLive c
        \<and> (\<forall>k \<in> set (keys params).
               CHR '':'' \<notin> set k \<and> \<not> prefix k ''id'' \<and> \<not> prefix ''id'' k)
      \<longrightarrow> includes_str (getEndpoint endpoint (getParams c endpoint params)) ''{account_id}'')
   \<and> (\<not> sessionLive c
      \<longrightarrow> getParams c endpoint params = merge [(''api_key'', Str (apiKey c))] params)
   \<and> (distinct (keys params) \<and> (''id'', v) \<in> set params \<and> truthy v \<and> \<not> isObject v
      \<longrightarrow> getParams c endpoint params = merge (defaults c) params
          \<and> get (getParams c endpoint params) ''id'' = v)"
proof (intro conjI impI)
  assume "includes_str endpoint '':id'' \<and> sessionLive c \<and> ''id'' \<notin> set (keys params)"
  then have "getParams c endpoint params
         = merge (defaults c) params @ [(''id'', Str ''{account_id}'')]"
    by (simp add: getParams_no_id)
  moreover have "map_of (merge (defaults c) params) ''id'' = None"
    using \<open>includes_str endpoint '':id'' \<and> sessionLive c \<and> ''id'' \<notin> set (keys params)\<close>
      id_not_default [of c]
    by (intro map_of_notin) (simp add: keys_merge)
  ultimately show "get (getParams c endpoint params) ''id'' = Str ''{account_id}''"
    by (simp add: get_def map_add_def)
next
  assume "includes_str endpoint '':id'' \<and> sessionLive c
        \<and> (\<forall>k \<in> set (keys params).
               CHR '':'' \<notin> set k \<and> \<not> prefix k ''id'' \<and> \<not> prefix ''id'' k)"
  then show "includes_str (getEndpoint endpoint (getParams c endpoint params)) ''{account_id}''"
    by (intro account_path) auto
next
  assume "\<not> sessionLive c"
  then show "getParams c endpoint params = merge [(''api_key'', Str (apiKey c))] params"
    by (simp add: getParams_unfold defaults_no_session)
next
  assume h: "distinct (keys params) \<and> (''id'', v) \<in> set params \<and> truthy v \<and> \<not> isObject v"
  then show "getParams c endpoint params = merge (defaults c) params"
    by (intro getParams_truthy_id(1) [of params v]) auto
  from h show "get (getParams c endpoint params) ''id'' = v"
    by (intro getParams_truthy_id(2)) auto
qed

text \<open>
  The theorem on \<^verbatim>\<open>account/:id/favorite/movies\<close>: with the session \<^verbatim>\<open>s1\<close> and the
  parameters \<^verbatim>\<open>{language: "en"}\<close>, with the same session and an explicit id 7, and
  without a session.
\<close>

theorem implicit_current_user_witness:
  "get (getParams \<lparr>apiKey = ''k'', baseUrl = ''b/'', token = Undefined, sessionId = Some ''s1''\<rparr>
          ''account/:id/favorite/movies'' [(''language'', Str ''en'')]) ''id''
     = Str ''{account_id}''
   \<and> includes_str
        (getEndpoint ''account/:id/favorite/movies''
           (getParams \<lparr>apiKey = ''k'', baseUrl = ''b/'', token = Undefined, sessionId = Some ''s1''\<rparr>
              ''account/:id/favorite/movies'' [(''language'', Str ''en'')]))
        ''{account_id}''
   \<and> getParams \<lparr>apiKey = ''k'', baseUrl = ''b/'', token = Undefined, sessionId = None\<rparr>
        ''account/:id/favorite/movies'' [(''language'', Str ''en'')]
       = merge [(''api_key'', Str ''k'')] [(''language'', Str ''en'')]
   \<and> get (getParams \<lparr>apiKey = ''k'', baseUrl = ''b/'', token = Undefined, sessionId = Some ''s1''\<rparr>
            ''account/:id/favorite/movies'' [(''id'', Num 7)]) ''id''
       = Num 7"
proof -
  let ?e = "''account/:id/favorite/movies''"
  let ?cS = "\<lparr>apiKey = ''k'', baseUrl = ''b/'', token = Undefined, sessionId = Some ''s1''\<rparr>"
  let ?c0 = "\<lparr>apiKey = ''k'', baseUrl = ''b/'', token = Undefined, sessionId = None\<rparr>"
  let ?p = "[(''language'', Str ''en'')]"
  let ?q = "[(''id'', Num 7)]"
  have inc: "includes_str ?e '':id''"
    by code_simp
  have live: "sessionLive ?cS" and dead: "\<not> sessionLive ?c0"
    by (simp_all add: sessionLive_def)
  have k1: "''id'' \<notin> set (keys ?p)"
    by (simp add: keys_def)
  have k2: "\<forall>k \<in> set (keys ?p). CHR '':'' \<notin> set k \<and> \<not> prefix k ''id'' \<and> \<not> prefix ''id'' k"
    by (simp add: keys_def)
  have k3: "distinct (keys ?q) \<and> (''id'', Num 7) \<in> set ?q \<and> truthy (Num 7) \<and> \<not> isObject (Num 7)"
    by (simp add: keys_def)
  from implicit_current_user [of ?e ?cS ?p "Num 7"] inc live k1 k2
  have a: "get (getParams ?cS ?e ?p) ''id'' = Str ''{account_id}''"
    and b: "includes_str (getEndpoint ?e (getParams ?cS ?e ?p)) ''{account_id}''"
    by blast+
  from implicit_current_user [of ?e ?c0 ?p "Num 7"] dead
  have "getParams ?c0 ?e ?p = merge [(''api_key'', Str (apiKey ?c0))] ?p"
    by blast
  then have c: "getParams ?c0 ?e ?p = merge [(''api_key'', Str ''k'')] ?p"
    by (simp only: client.select_convs)
  from implicit_current_user [of ?e ?cS ?q "Num 7"] k3
  have d: "get (getParams ?cS ?e ?q) ''id'' = Num 7"
    by blast
  from a b c d show ?thesis
    by (intro conjI)
qed

text \<open>
  Claim C5 as stated fails in two places. An explicit \<^verbatim>\<open>id\<close> key does not prevent the
  injection when its value is falsy: \<^verbatim>\<open>{id: 0}\<close> comes out with the sentinel. And the
  path need not contain \<^verbatim>\<open>{account_id}\<close> although the sentinel was injected: with a
  parameter named \<^verbatim>\<open>i\<close> the earlier replacement of \<^verbatim>\<open>:i\<close> has used up the colon of
  \<^verbatim>\<open>:id\<close>.
\<close>

theorem explicit_zero_id_and_lost_sentinel:
  "''id'' \<in> set (keys [(''id'', Num 0)])
   \<and> getParams \<lparr>apiKey = ''k'', baseUrl = ''b/'', token = Undefined, sessionId = Some ''s1''\<rparr>
        ''account/:id/lists'' [(''id'', Num 0)]
       = [(''api_key'', Str ''k''), (''session_id'', Str ''s1''), (''id'', Str ''{account_id}'')]
   \<and> ''id'' \<notin> set (keys [(''i'', Str ''q'')])
   \<and> getParams \<lparr>apiKey = ''k'', baseUrl = ''b/'', token = Undefined, sessionId = Some ''s1''\<rparr>
        ''account/:id/lists'' [(''i'', Str ''q'')]
       = [(''api_key'', Str ''k''), (''session_id'', Str ''s1''), (''i'', Str ''q''),
          (''id'', Str ''{account_id}'')]
   \<and> getEndpoint ''account/:id/lists''
        (getParams \<lparr>apiKey = ''k'', baseUrl = ''b/'', token = Undefined, sessionId = Some ''s1''\<rparr>
           ''account/:id/lists'' [(''i'', Str ''q'')])
       = ''account/qd/lists''"
  by code_simp

section \<open>A falsy id\<close>

text \<open>
  Claim C10. On a template that contains \<^verbatim>\<open>:id\<close>, with a session id set, a parameter
  mapping that supplies \<^verbatim>\<open>id\<close> as the number 0 or as the empty string has that key and
  that value in the merged mapping, and the full query of the request nevertheless carries
  the sentinel \<^verbatim>\<open>{account_id}\<close> as its \<^verbatim>\<open>id\<close>: the condition looks at the
  truthiness of the value, not at the presence of the key.
\<close>

theorem falsy_id_is_replaced:
  assumes "includes_str endpoint '':id''" and "sessionLive c"
    and "distinct (keys params)" and "(''id'', v) \<in> set params"
    and "v = Num 0 \<or> v = Str []"
  shows "''id'' \<in> set (keys (merge (defaults c) params))
         \<and> get (merge (defaults c) params) ''id'' = v
         \<and> get (fullQuery c endpoint (Obj params)) ''id'' = Str ''{account_id}''"
proof -
  have k: "''id'' \<in> set (keys (merge (defaults c) params))"
    using assms(4) by (auto simp: keys_merge dest: in_keys)
  have g: "get (merge (defaults c) params) ''id'' = v"
    using assms(3,4,5) by (intro get_merge_scalar) auto
  with assms(1,2,5) have "get (getParams c endpoint params) ''id'' = Str ''{account_id}''"
    by (auto simp: getParams_unfold get_setProp)
  with k g show ?thesis
    by (simp add: fullQuery_def normalizeParams_def)
qed

text \<open>The theorem on \<^verbatim>\<open>account/:id/lists\<close> with \<^verbatim>\<open>{id: 0, page: 2}\<close>.\<close>

theorem falsy_id_is_replaced_witness:
  "get (fullQuery \<lparr>apiKey = ''k'', baseUrl = ''b/'', token = Undefined, sessionId = Some ''s1''\<rparr>
          ''account/:id/lists'' (Obj [(''id'', Num 0), (''page'', Num 2)])) ''id''
     = Str ''{account_id}''"
proof -
  have inc: "includes_str ''account/:id/lists'' '':id''"
    by code_simp
  show ?thesis
    using inc
      falsy_id_is_replaced [of "''account/:id/lists''"
        "\<lparr>apiKey = ''k'', baseUrl = ''b/'', token = Undefined, sessionId = Some ''s1''\<rparr>"
        "[(''id'', Num 0), (''page'', Num 2)]" "Num 0"]
    by (simp add: sessionLive_def keys_def)
qed

section \<open>The verb decides between query string and body\<close>

lemma get_Cons: "get ((k, v) # ob) k' = (if k' = k then v else get ob k')"
  by (simp add: get_def)

lemma stringify_Obj:
  "stringifyValue (Obj ob) = Str (''{'' @ joinWith '','' (members ob) @ ''}'')"
  by (simp add: stringifyValue_def)

lemma options_unfold:
  "options (fetchArgs c method endpoint params fetchOptions) =
     spread (spread [(''method'', methodValue method)]
               (if method \<noteq> Get
                then [(''body'', stringifyValue (Obj (query c endpoint params)))]
                else []))
            fetchOptions"
  by (simp add: fetchArgs_def Let_def)

lemma url_unfold:
  "url (fetchArgs c method endpoint params fetchOptions) =
     (if method = Get
      then baseUrl c @ getEndpoint endpoint (fullQuery c endpoint params) @ ''?''
             @ URLSearchParams_toString (query c endpoint params)
      else baseUrl c @ getEndpoint endpoint (fullQuery c endpoint params))"
  by (simp add: fetchArgs_def Let_def)

text \<open>
  Claim C4, as amended. For the verb GET the residual parameters are serialised as a
  URL-encoded query string appended to the URL after a question mark, and the options get
  no body from the request builder: they have one only when the caller's transport options
  bring one. For any other verb nothing is appended to the URL, and the body is the JSON
  text of the residual parameters unless the caller's transport options bring a body of
  their own. The residual \<^verbatim>\<open>{language: "en"}\<close> serialises to \<^verbatim>\<open>?language=en\<close> and
  to \<^verbatim>\<open>{"language":"en"}\<close>.
\<close>

theorem verb_dependent_encoding:
  \<open>url (fetchArgs c Get endpoint params fetchOptions)
     = baseUrl c @ getEndpoint endpoint (fullQuery c endpoint params) @ ''?''
         @ URLSearchParams_toString (query c endpoint params)
   \<and> (''body'' \<notin> set (keys fetchOptions)
        \<longrightarrow> ''body'' \<notin> set (keys (options (fetchArgs c Get endpoint params fetchOptions))))
   \<and> (method \<noteq> Get
        \<longrightarrow> url (fetchArgs c method endpoint params fetchOptions)
            = baseUrl c @ getEndpoint endpoint (fullQuery c endpoint params))
   \<and> (method \<noteq> Get \<and> ''body'' \<notin> set (keys fetchOptions)
        \<longrightarrow> (\<exists>s. JSON_stringify (Obj (query c endpoint params)) = Some s
                 \<and> get (options (fetchArgs c method endpoint params fetchOptions)) ''body'' = Str s))
   \<and> ''?'' @ URLSearchParams_toString [(''language'', Str ''en'')] = ''?language=en''
   \<and> JSON_stringify (Obj [(''language'', Str ''en'')]) = Some ''{"language":"en"}''\<close>
proof (intro conjI impI)
  show \<open>''?'' @ URLSearchParams_toString [(''language'', Str ''en'')] = ''?language=en''\<close>
    by code_simp
  show \<open>JSON_stringify (Obj [(''language'', Str ''en'')]) = Some ''{"language":"en"}''\<close>
    by code_simp
next
  assume h: "method \<noteq> Get \<and> ''body'' \<notin> set (keys fetchOptions)"
  then have "get (options (fetchArgs c method endpoint params fetchOptions)) ''body''
      = stringifyValue (Obj (query c endpoint params))"
    by (simp add: options_unfold get_spread keys_simps get_Cons)
  then show "\<exists>s. JSON_stringify (Obj (query c endpoint params)) = Some s
      \<and> get (options (fetchArgs c method endpoint params fetchOptions)) ''body'' = Str s"
    by (simp add: stringify_Obj)
qed (auto simp: url_unfold options_unfold keys_spread keys_simps)

text \<open>
  The theorem on \<^verbatim>\<open>configuration\<close> with the parameters \<^verbatim>\<open>{language: "en"}\<close> and no
  transport options, as a GET and as a POST.
\<close>

theorem verb_dependent_encoding_witness:
  \<open>url (fetchArgs \<lparr>apiKey = ''k'', baseUrl = ''b/'', token = Undefined, sessionId = None\<rparr>
          Get ''configuration'' (Obj [(''language'', Str ''en'')]) [])
     = ''b/configuration?api_key=k&language=en''
   \<and> ''body'' \<notin> set (keys (options
          (fetchArgs \<lparr>apiKey = ''k'', baseUrl = ''b/'', token = Undefined, sessionId = None\<rparr>
             Get ''configuration'' (Obj [(''language'', Str ''en'')]) [])))
   \<and> url (fetchArgs \<lparr>apiKey = ''k'', baseUrl = ''b/'', token = Undefined, sessionId = None\<rparr>
            Post ''configuration'' (Obj [(''language'', Str ''en'')]) [])
       = ''b/configuration''
   \<and> get (options
          (fetchArgs \<lparr>apiKey = ''k'', baseUrl = ''b/'', token = Undefined, sessionId = None\<rparr>
             Post ''configuration'' (Obj [(''language'', Str ''en'')]) [])) ''body''
       = Str ''{"api_key":"k","language":"en"}''\<close>
proof -
  let ?c = "\<lparr>apiKey = ''k'', baseUrl = ''b/'', token = Undefined, sessionId = None\<rparr>"
  let ?p = "Obj [(''language'', Str ''en'')]"
  note T = verb_dependent_encoding [of ?c "''configuration''" ?p "[]" Post]
  have nb: "''body'' \<notin> set (keys [])" and ng: "Post \<noteq> Get"
    by (simp_all add: keys_def)
  have path: "baseUrl ?c @ getEndpoint ''configuration'' (fullQuery ?c ''configuration'' ?p)
      = ''b/configuration''"
    by code_simp
  have qs: "URLSearchParams_toString (query ?c ''configuration'' ?p) = ''api_key=k&language=en''"
    by code_simp
  have js: \<open>JSON_stringify (Obj (query ?c ''configuration'' ?p))
      = Some ''{"api_key":"k","language":"en"}''\<close>
    by code_simp
  from T have "url (fetchArgs ?c Get ''configuration'' ?p [])
      = (baseUrl ?c @ getEndpoint ''configuration'' (fullQuery ?c ''configuration'' ?p))
          @ ''?'' @ URLSearchParams_toString (query ?c ''configuration'' ?p)"
    by simp
  then have a: "url (fetchArgs ?c Get ''configuration'' ?p []) = ''b/configuration?api_key=k&language=en''"
    unfolding path qs by simp
  from T nb have b: "''body'' \<notin> set (keys (options (fetchArgs ?c Get ''configuration'' ?p [])))"
    by blast
  from T ng have "url (fetchArgs ?c Post ''configuration'' ?p [])
      = baseUrl ?c @ getEndpoint ''configuration'' (fullQuery ?c ''configuration'' ?p)"
    by blast
  then have c: "url (fetchArgs ?c Post ''configuration'' ?p []) = ''b/configuration''"
    unfolding path .
  from T nb ng obtain s where "JSON_stringify (Obj (query ?c ''configuration'' ?p)) = Some s"
    and "get (options (fetchArgs ?c Post ''configuration'' ?p [])) ''body'' = Str s"
    by blast
  with js have d: \<open>get (options (fetchArgs ?c Post ''configuration'' ?p [])) ''body''
      = Str ''{"api_key":"k","language":"en"}''\<close>
    by simp
  from a b c d show ?thesis
    by (intro conjI)
qed

text \<open>
  Claim C4 as stated fails once the caller's transport options carry a body: the options
  of a GET then have a body, and the body of a POST is the caller's text, not the JSON
  text of the residual parameters.
\<close>

theorem caller_body_wins:
  \<open>get (options (fetchArgs \<lparr>apiKey = ''k'', baseUrl = ''b/'', token = Undefined, sessionId = None\<rparr>
                  Get ''configuration'' (Obj [(''language'', Str ''en'')])
                  [(''body'', Str ''x'')])) ''body''
     = Str ''x''
   \<and> JSON_stringify (Obj (query \<lparr>apiKey = ''k'', baseUrl = ''b/'', token = Undefined, sessionId = None\<rparr>
                              ''movie/:id/rating'' (Obj [(''id'', Num 550), (''value'', Num 8)])))
     = Some ''{"api_key":"k","value":8}''
   \<and> get (options (fetchArgs \<lparr>apiKey = ''k'', baseUrl = ''b/'', token = Undefined, sessionId = None\<rparr>
                  Post ''movie/:id/rating'' (Obj [(''id'', Num 550), (''value'', Num 8)])
                  [(''body'', Str ''{}'')])) ''body''
     = Str ''{}''\<close>
  by code_simp

section \<open>Transport options\<close>

text \<open>
  Claim C8, as amended. The caller's transport options are applied last. They cannot
  change the URL. Every field they name takes their value, the computed method and the
  computed body included; every field they do not name keeps the value computed for it,
  and the fields of the result are the computed ones together with theirs.
\<close>

theorem fetchOptions_applied_last:
  "url (fetchArgs c method endpoint params fetchOptions)
     = url (fetchArgs c method endpoint params [])
   \<and> (\<forall>k \<in> set (keys fetchOptions).
         get (options (fetchArgs c method endpoint params fetchOptions)) k = get fetchOptions k)
   \<and> (\<forall>k. k \<notin> set (keys fetchOptions) \<longrightarrow>
         get (options (fetchArgs c method endpoint params fetchOptions)) k
           = get (options (fetchArgs c method endpoint params [])) k)
   \<and> set (keys (options (fetchArgs c method endpoint params fetchOptions)))
       = set (keys (options (fetchArgs c method endpoint params []))) \<union> set (keys fetchOptions)"
  by (simp add: url_unfold options_unfold get_spread keys_spread spread_empty)

text \<open>
  The theorem on a POST to \<^verbatim>\<open>list\<close> with a \<^verbatim>\<open>headers\<close> option: the headers are
  taken over, the method and the body stay as computed.
\<close>

theorem fetchOptions_applied_last_witness:
  \<open>get (options (fetchArgs \<lparr>apiKey = ''k'', baseUrl = ''b/'', token = Undefined, sessionId = None\<rparr>
                  Post ''list'' (Obj [(''name'', Str ''x'')])
                  [(''headers'', Obj [(''accept'', Str ''application/json'')])])) ''headers''
     = Obj [(''accept'', Str ''application/json'')]
   \<and> get (options (fetchArgs \<lparr>apiKey = ''k'', baseUrl = ''b/'', token = Undefined, sessionId = None\<rparr>
                  Post ''list'' (Obj [(''name'', Str ''x'')])
                  [(''headers'', Obj [(''accept'', Str ''application/json'')])])) ''body''
     = Str ''{"api_key":"k","name":"x"}''
   \<and> get (options (fetchArgs \<lparr>apiKey = ''k'', baseUrl = ''b/'', token = Undefined, sessionId = None\<rparr>
                  Post ''list'' (Obj [(''name'', Str ''x'')])
                  [(''headers'', Obj [(''accept'', Str ''application/json'')])])) ''method''
     = methodValue Post\<close>
proof -
  let ?c = "\<lparr>apiKey = ''k'', baseUrl = ''b/'', token = Undefined, sessionId = None\<rparr>"
  let ?p = "Obj [(''name'', Str ''x'')]"
  let ?fo = "[(''headers'', Obj [(''accept'', Str ''application/json'')])]"
  note T = fetchOptions_applied_last [of ?c Post "''list''" ?p ?fo]
  have in_fo: "''headers'' \<in> set (keys ?fo)"
    and out_fo: "''body'' \<notin> set (keys ?fo)" "''method'' \<notin> set (keys ?fo)"
    by (simp_all add: keys_def)
  have base: \<open>options (fetchArgs ?c Post ''list'' ?p [])
      = [(''method'', Str ''POST''), (''body'', Str ''{"api_key":"k","name":"x"}'')]\<close>
    by code_simp
  from T in_fo have "get (options (fetchArgs ?c Post ''list'' ?p ?fo)) ''headers'' = get ?fo ''headers''"
    by blast
  moreover from T out_fo
  have "get (options (fetchArgs ?c Post ''list'' ?p ?fo)) ''body''
          = get (options (fetchArgs ?c Post ''list'' ?p [])) ''body''"
    and "get (options (fetchArgs ?c Post ''list'' ?p ?fo)) ''method''
          = get (options (fetchArgs ?c Post ''list'' ?p [])) ''method''"
    by blast+
  ultimately show ?thesis
    unfolding base by (simp add: get_Cons)
qed

text \<open>
  Claim C8 as stated excepts the body from what the transport options may override. It
  is not excepted: a \<^verbatim>\<open>body\<close> option replaces the JSON text computed for a DELETE.
\<close>

theorem fetchOptions_replace_body:
  \<open>get (options (fetchArgs \<lparr>apiKey = ''k'', baseUrl = ''b/'', token = Undefined, sessionId = None\<rparr>
                  Delete ''list/:id'' (Obj [(''id'', Num 3)]) [])) ''body''
     = Str ''{"api_key":"k"}''
   \<and> get (options (fetchArgs \<lparr>apiKey = ''k'', baseUrl = ''b/'', token = Undefined, sessionId = None\<rparr>
                  Delete ''list/:id'' (Obj [(''id'', Num 3)]) [(''body'', Str ''x'')])) ''body''
     = Str ''x''\<close>
  by code_simp

section \<open>The cached token\<close>

lemma fetchArgs_token [simp]:
  "fetchArgs (c\<lparr>token := t\<rparr>) method endpoint params fetchOptions
     = fetchArgs c method endpoint params fetchOptions"
  by (simp add: fetchArgs_def fullQuery_def query_def getParams_def defaults_def sessionLive_def)

lemma requestToken_refresh:
  assumes "\<not> truthy (token c)
           \<or> (\<exists>e0. getTime (getField (token c) ''expires_at'') = Some e0 \<and> e0 < now)"
    and "srv (length (sent w)) (fetchArgs c Get ''authentication/token/new'' Undefined []) = Inr t"
  shows "requestToken getTime srv now c w
         = (Inr t, c\<lparr>token := t\<rparr>,
            w\<lparr>sent := sent w @ [fetchArgs c Get ''authentication/token/new'' Undefined []]\<rparr>)"
  using assms by (auto simp: requestToken_def makeRequest_def Let_def)

lemma requestToken_cached:
  assumes "truthy (token c)" and "getTime (getField (token c) ''expires_at'') = Some e"
    and "now \<le> e"
  shows "requestToken getTime srv now c w = (Inr (token c), c, w)"
  using assms by (simp add: requestToken_def)

text \<open>
  Claim C6. Start from a client whose token is absent or expired at the time of the first
  call, and let the token request be answered with a token \<open>t\<close> whose expiry parses to
  \<open>e\<close>. The first call sends one request, stores \<open>t\<close> and returns it. A second call at
  any time up to \<open>e\<close> returns the same \<open>t\<close> and leaves client and network as they are, so
  that one request has been sent in all. A call after \<open>e\<close> sends a second request, and
  when that is answered with \<open>t'\<close> the stored token is \<open>t'\<close>, whatever \<open>t\<close> was.
\<close>

theorem requestToken_once_until_expiry:
  assumes "\<not> truthy (token c)
           \<or> (\<exists>e0. getTime (getField (token c) ''expires_at'') = Some e0 \<and> e0 < now1)"
    and "srv (length (sent w)) (fetchArgs c Get ''authentication/token/new'' Undefined []) = Inr t"
    and "truthy t" and "getTime (getField t ''expires_at'') = Some e" and "now2 \<le> e"
  shows "(let r = fetchArgs c Get ''authentication/token/new'' Undefined [];
              c1 = c\<lparr>token := t\<rparr>;
              w1 = w\<lparr>sent := sent w @ [r]\<rparr>
          in requestToken getTime srv now1 c w = (Inr t, c1, w1)
           \<and> requestToken getTime srv now2 c1 w1 = (Inr t, c1, w1)
           \<and> length (sent w1) = Suc (length (sent w))
           \<and> (e < now3 \<and> srv (Suc (length (sent w))) r = Inr t'
                \<longrightarrow> requestToken getTime srv now3 c1 w1
                    = (Inr t', c\<lparr>token := t'\<rparr>, w\<lparr>sent := sent w @ [r, r]\<rparr>)))"
proof -
  let ?r = "fetchArgs c Get ''authentication/token/new'' Undefined []"
  let ?c1 = "c\<lparr>token := t\<rparr>"
  let ?w1 = "w\<lparr>sent := sent w @ [?r]\<rparr>"
  have first: "requestToken getTime srv now1 c w = (Inr t, ?c1, ?w1)"
    using assms(1,2) by (rule requestToken_refresh)
  have second: "requestToken getTime srv now2 ?c1 ?w1 = (Inr t, ?c1, ?w1)"
    using requestToken_cached [of ?c1 getTime e now2 srv ?w1] assms(3,4,5) by simp
  have third: "requestToken getTime srv now3 ?c1 ?w1
           = (Inr t', c\<lparr>token := t'\<rparr>, w\<lparr>sent := sent w @ [?r, ?r]\<rparr>)"
    if "e < now3" and "srv (Suc (length (sent w))) ?r = Inr t'"
  proof -
    have "requestToken getTime srv now3 ?c1 ?w1
        = (Inr t', ?c1\<lparr>token := t'\<rparr>,
           ?w1\<lparr>sent := sent ?w1 @ [fetchArgs ?c1 Get ''authentication/token/new'' Undefined []]\<rparr>)"
      using assms(4) that by (intro requestToken_refresh) simp_all
    then show ?thesis by simp
  qed
  from first second third show ?thesis
    by (simp add: Let_def)
qed

text \<open>
  The theorem with a fresh client, a token that expires at 17:04:39 and calls one hour
  before, one millisecond later and one millisecond after the expiry.
\<close>

theorem requestToken_once_until_expiry_witness:
  "(let G = (\<lambda>v. if v = Str ''2016-08-26 17:04:39 UTC'' then Some 1472231079000 else None);
        T1 = Obj [(''success'', Bool True),
                  (''expires_at'', Str ''2016-08-26 17:04:39 UTC''),
                  (''request_token'', Str ''t1'')];
        T2 = Obj [(''success'', Bool True),
                  (''expires_at'', Str ''2016-08-26 18:04:40 UTC''),
                  (''request_token'', Str ''t2'')];
        S = (\<lambda>n r. if n = 0 then Inr T1 else Inr T2);
        c0 = \<lparr>apiKey = ''k'', baseUrl = ''b/'', token = Undefined, sessionId = None\<rparr>;
        r = fetchArgs c0 Get ''authentication/token/new'' Undefined [];
        c1 = c0\<lparr>token := T1\<rparr>;
        w1 = \<lparr>sent = [r]\<rparr>
    in requestToken G S 1472227479000 c0 \<lparr>sent = []\<rparr> = (Inr T1, c1, w1)
     \<and> requestToken G S 1472227479001 c1 w1 = (Inr T1, c1, w1)
     \<and> requestToken G S 1472231079001 c1 w1 = (Inr T2, c0\<lparr>token := T2\<rparr>, \<lparr>sent = [r, r]\<rparr>))"
  using requestToken_once_until_expiry
    [of "\<lparr>apiKey = ''k'', baseUrl = ''b/'', token = Undefined, sessionId = None\<rparr>"
        "\<lambda>v. if v = Str ''2016-08-26 17:04:39 UTC'' then Some 1472231079000 else None"
        1472227479000
        "\<lambda>n r. if n = 0
            then Inr (Obj [(''success'', Bool True),
                           (''expires_at'', Str ''2016-08-26 17:04:39 UTC''),
                           (''request_token'', Str ''t1'')])
            else Inr (Obj [(''success'', Bool True),
                           (''expires_at'', Str ''2016-08-26 18:04:40 UTC''),
                           (''request_token'', Str ''t2'')])"
        "\<lparr>sent = []\<rparr>"
        "Obj [(''success'', Bool True),
              (''expires_at'', Str ''2016-08-26 17:04:39 UTC''),
              (''request_token'', Str ''t1'')]"
        1472231079000 1472227479001 1472231079001
        "Obj [(''success'', Bool True),
              (''expires_at'', Str ''2016-08-26 18:04:40 UTC''),
              (''request_token'', Str ''t2'')]"]
  by (simp add: Let_def get_def)

end
